theory Spec2Isabelle
  imports Complex_Main "HOL-Library.AList"
begin

section \<open>The stress-test driver of the FDB queue service\<close>

text \<open>
  The development embeds \<^verbatim>\<open>apps/fdb-queue-service/stress-test/src/index.ts\<close> and the
  HTTP client that follows it in the same file: the counting \<^verbatim>\<open>Semaphore\<close>, the
  \<^verbatim>\<open>ProductionSimulator\<close> (main queue, per-team state, promotion on completion), the
  task bodies of \<^verbatim>\<open>runSimulation\<close>, and \<^verbatim>\<open>FDBQueueClient.request\<close> and
  \<^verbatim>\<open>flushTeamQueue\<close>.

  JavaScript numbers that count things or hold millisecond timestamps are \<open>int\<close>;
  the generation interval \<^verbatim>\<open>1000 / jobsPerSecond\<close>, the draws of \<^verbatim>\<open>Math.random()\<close> and
  the readings of \<^verbatim>\<open>performance.now()\<close> are \<open>real\<close>. A \<^verbatim>\<open>Map\<close> is an association
  list in insertion order: \<^verbatim>\<open>set\<close> is \<open>AList.update\<close> (an existing key keeps its place, a
  new one goes last) and \<^verbatim>\<open>delete\<close> is \<open>AList.delete\<close>.
\<close>

subsection \<open>Semaphore\<close>

text \<open>
  \<^verbatim>\<open>waiting\<close> holds the \<^verbatim>\<open>resolve\<close> callbacks of the parked acquirers; a callback is
  identified by the number of the acquirer it belongs to.
\<close>

record Semaphore =
  permits :: int
  waiting :: "nat list"

definition Semaphore_new :: "int \<Rightarrow> Semaphore" where
  "Semaphore_new n = \<lparr>permits = n, waiting = []\<rparr>"

text \<open>
  \<^verbatim>\<open>acquire\<close>: the flag tells whether the promise is already resolved (\<open>True\<close>) or the
  caller \<open>r\<close> was parked at the end of \<^verbatim>\<open>waiting\<close> (\<open>False\<close>).
\<close>

definition acquire :: "nat \<Rightarrow> Semaphore \<Rightarrow> Semaphore \<times> bool" where
  "acquire r s =
     (if permits s > 0 then (s\<lparr>permits := permits s - 1\<rparr>, True)
      else (s\<lparr>waiting := waiting s @ [r]\<rparr>, False))"

text \<open>
  \<^verbatim>\<open>release\<close>: \<^verbatim>\<open>waiting.shift()\<close> takes the first callback, if any, and calls it;
  the result names the acquirer that was woken.
\<close>

definition release :: "Semaphore \<Rightarrow> Semaphore \<times> nat option" where
  "release s =
     (case waiting s of
        [] \<Rightarrow> (s\<lparr>permits := permits s + 1\<rparr>, None)
      | nxt # rest \<Rightarrow> (s\<lparr>waiting := rest\<rparr>, Some nxt))"

definition available :: "Semaphore \<Rightarrow> int" where
  "available s = permits s"

definition pending :: "Semaphore \<Rightarrow> int" where
  "pending s = int (length (waiting s))"

datatype sem_op = Acquire nat | Release

text \<open>
  A run of the semaphore, with two ghost lists: the acquirers parked so far and the
  acquirers woken so far, each in the order it happened.
\<close>

fun sem_step :: "sem_op \<Rightarrow> Semaphore \<times> nat list \<times> nat list \<Rightarrow> Semaphore \<times> nat list \<times> nat list" where
  "sem_step (Acquire r) (s, parked, woken) =
     (case acquire r s of
        (s', True) \<Rightarrow> (s', parked, woken)
      | (s', False) \<Rightarrow> (s', parked @ [r], woken))"
| "sem_step Release (s, parked, woken) =
     (case release s of
        (s', None) \<Rightarrow> (s', parked, woken)
      | (s', Some w) \<Rightarrow> (s', parked, woken @ [w]))"

fun sem_run :: "sem_op list \<Rightarrow> Semaphore \<times> nat list \<times> nat list \<Rightarrow> Semaphore \<times> nat list \<times> nat list" where
  "sem_run [] c = c"
| "sem_run (x # xs) c = sem_run xs (sem_step x c)"

subsection \<open>Data of the simulator\<close>

text \<open>
  \<^verbatim>\<open>TeamState\<close>, \<^verbatim>\<open>ActiveJob\<close> and \<^verbatim>\<open>ClaimedJob\<close> are declared in \<^verbatim>\<open>types.ts\<close>;
  their fields are the ones \<^verbatim>\<open>index.ts\<close> reads and writes. Field names that occur in two
  records carry the record's initials.
\<close>

record MainQueueJob =
  jobId :: string
  teamId :: string
  priority :: int
  createdAt :: int
  crawlId :: "string option"

record ActiveJob =
  ajJobId :: string
  queueKey :: string
  startTime :: int
  fromFDB :: bool

record Tier =
  tierName :: string
  teamCount :: int
  concurrencyLimit :: int
  jobsPerSecond :: real

record TeamState =
  tsTeamId :: string
  tier :: Tier
  activeJobs :: "(string \<times> ActiveJob) list"
  queuedJobs :: int
  completedJobs :: int
  lastPushTime :: int
  tsJobCounter :: int

text \<open>The job inside a claim, as \<^verbatim>\<open>completeJob\<close> reads it (\<^verbatim>\<open>claimed.job\<close> may be missing).\<close>

record RemoteJob =
  rjId :: string
  rjPriority :: int
  created_at :: int
  crawl_id :: "string option"

record ClaimedJob =
  job :: "RemoteJob option"
  cjQueueKey :: string

text \<open>
  What the simulator does to its collaborators, in the order it does it: the
  callbacks of the \<^verbatim>\<open>CorrectnessChecker\<close> and the methods of the \<^verbatim>\<open>FDBQueueClient\<close> it calls.
\<close>

datatype call =
    RecordComplete string
  | RecordClaim ClaimedJob string
  | ClientPushJob string string int int "string option"
  | ClientPopJob string
  | ClientCompleteJob string
  | ClientReleaseJob string
  | ClientPushActiveJob string string int
  | ClientRemoveActiveJob string string

record Config =
  teamTiers :: "Tier list"
  jobProcessingDelayMs :: int
  workerConcurrency :: int
  correctnessChecking :: bool

text \<open>
  The simulator. \<open>calls\<close> is the trace of the calls made so far; a callback of the
  checker is made (and traced) only when the checker is there (\<^verbatim>\<open>correctnessChecker?.\<close>).
\<close>

record ProductionSimulator =
  teams :: "(string \<times> TeamState) list"
  mainQueue :: "MainQueueJob list"
  jobTimeout :: int
  hasChecker :: bool
  runId :: string
  config :: Config
  jobCounter :: int
  calls :: "call list"

subsection \<open>pickJobFromMainQueue\<close>

text \<open>
  The scan \<^verbatim>\<open>for (let i = 1; i < mainQueue.length; i++)\<close> with its two variables; the
  result is the final \<^verbatim>\<open>bestIdx\<close>.
\<close>

function pick_scan :: "MainQueueJob list \<Rightarrow> nat \<Rightarrow> nat \<Rightarrow> int \<Rightarrow> nat" where
  "pick_scan q i bestIdx bestPriority =
     (if i < length q then
        (if priority (q ! i) < bestPriority then pick_scan q (i + 1) i (priority (q ! i))
         else pick_scan q (i + 1) bestIdx bestPriority)
      else bestIdx)"
  by pat_completeness auto
termination
  by (relation "measure (\<lambda>(q, i, b, p). length q - i)") auto

declare pick_scan.simps [simp del]

definition pickJobFromMainQueue :: "ProductionSimulator \<Rightarrow> MainQueueJob option \<times> ProductionSimulator" where
  "pickJobFromMainQueue s =
     (let q = mainQueue s in
      if length q = 0 then (None, s)
      else
        (let bestIdx = pick_scan q 1 0 (priority (q ! 0));
             jb = q ! bestIdx
         in (Some jb, s\<lparr>mainQueue := take bestIdx q @ drop (Suc bestIdx) q\<rparr>)))"


subsection \<open>Numbers as text\<close>

text \<open>
  Template literals print a counter in decimal: \<^verbatim>\<open>`${team.jobCounter}`\<close>.
\<close>

definition digit_char :: "nat \<Rightarrow> char" where
  "digit_char d = char_of (48 + d)"

fun dec :: "nat \<Rightarrow> string" where
  "dec n = (if n < 10 then [digit_char n] else dec (n div 10) @ [digit_char (n mod 10)])"

declare dec.simps [simp del]

definition show_int :: "int \<Rightarrow> string" where
  "show_int i = (if i < 0 then CHR ''-'' # dec (nat (- i)) else dec (nat i))"


definition padStart :: "nat \<Rightarrow> char \<Rightarrow> string \<Rightarrow> string" where
  "padStart n c str = replicate (n - length str) c @ str"

subsection \<open>Construction of the simulator\<close>

definition teamIdOf :: "nat \<Rightarrow> string" where
  "teamIdOf teamIndex = ''stress-team-'' @ padStart 6 (CHR ''0'') (dec teamIndex)"

definition newTeamState :: "string \<Rightarrow> Tier \<Rightarrow> TeamState" where
  "newTeamState tid tr =
     \<lparr>tsTeamId = tid, tier = tr, activeJobs = [], queuedJobs = 0, completedJobs = 0,
      lastPushTime = 0, tsJobCounter = 0\<rparr>"

text \<open>
  The inner loop of \<^verbatim>\<open>initializeTeams\<close>: \<open>n\<close> more teams of tier \<open>tr\<close>, the next
  one numbered \<open>teamIndex\<close>. The result is the map and the next \<open>teamIndex\<close>.
\<close>

fun initTier :: "Tier \<Rightarrow> nat \<Rightarrow> (string \<times> TeamState) list \<times> nat \<Rightarrow> (string \<times> TeamState) list \<times> nat" where
  "initTier tr 0 (m, teamIndex) = (m, teamIndex)"
| "initTier tr (Suc n) (m, teamIndex) =
     initTier tr n
       (AList.update (teamIdOf teamIndex) (newTeamState (teamIdOf teamIndex) tr) m, Suc teamIndex)"

fun initTiers :: "Tier list \<Rightarrow> (string \<times> TeamState) list \<times> nat \<Rightarrow> (string \<times> TeamState) list \<times> nat" where
  "initTiers [] c = c"
| "initTiers (tr # trs) c = initTiers trs (initTier tr (nat (teamCount tr)) c)"

definition initializeTeams :: "Config \<Rightarrow> (string \<times> TeamState) list" where
  "initializeTeams cfg = fst (initTiers (teamTiers cfg) ([], 0))"

text \<open>
  The constructor; \<open>rid\<close> is the run id it draws from the clock and \<^verbatim>\<open>Math.random()\<close>,
  \<open>checker\<close> tells whether a \<^verbatim>\<open>CorrectnessChecker\<close> was passed.
\<close>

definition newSimulator :: "Config \<Rightarrow> bool \<Rightarrow> string \<Rightarrow> ProductionSimulator" where
  "newSimulator cfg checker rid =
     \<lparr>teams = initializeTeams cfg, mainQueue = [], jobTimeout = 600000, hasChecker = checker,
      runId = rid, config = cfg, jobCounter = 0, calls = []\<rparr>"

definition getTeam :: "ProductionSimulator \<Rightarrow> string \<Rightarrow> TeamState option" where
  "getTeam s tid = map_of (teams s) tid"

text \<open>A team is an object mutated in place: the entry of the map is replaced where it stands.\<close>

definition mutateTeam :: "string \<Rightarrow> (TeamState \<Rightarrow> TeamState) \<Rightarrow> ProductionSimulator \<Rightarrow> ProductionSimulator" where
  "mutateTeam tid f s = s\<lparr>teams := AList.map_entry tid f (teams s)\<rparr>"

definition traced :: "call \<Rightarrow> ProductionSimulator \<Rightarrow> ProductionSimulator" where
  "traced c s = s\<lparr>calls := calls s @ [c]\<rparr>"

definition getTotalActiveJobs :: "ProductionSimulator \<Rightarrow> int" where
  "getTotalActiveJobs s = (\<Sum>t\<leftarrow>map snd (teams s). int (length (activeJobs t)))"

subsection \<open>generateJobs\<close>

text \<open>
  The three results of \<^verbatim>\<open>Math.random()\<close> that one pass of the loop draws for a team, in
  the order of the source; each lies in \<open>[0, 1)\<close>. The second and the third are drawn only
  when the job is generated.
\<close>

record draws =
  jitterDraw :: real
  crawlDraw :: real
  priorityDraw :: real

definition mkJobId :: "string \<Rightarrow> string \<Rightarrow> int \<Rightarrow> string" where
  "mkJobId tid rid n = tid @ ''-'' @ rid @ ''-job-'' @ show_int n"

definition mkCrawlId :: "string \<Rightarrow> string \<Rightarrow> int \<Rightarrow> string" where
  "mkCrawlId tid rid n = tid @ ''-'' @ rid @ ''-crawl-'' @ show_int (n div 10)"

text \<open>
  \<^verbatim>\<open>intervalMs = 1000 / team.tier.jobsPerSecond\<close> and
  \<^verbatim>\<open>jitter = (Math.random() - 0.5) * intervalMs * 0.2\<close>.
\<close>

definition intervalMs :: "TeamState \<Rightarrow> real" where
  "intervalMs t = 1000 / jobsPerSecond (tier t)"

definition jitter :: "draws \<Rightarrow> TeamState \<Rightarrow> real" where
  "jitter d t = (jitterDraw d - 1 / 2) * intervalMs t * (2 / 10)"

text \<open>
  The test \<^verbatim>\<open>timeSinceLastPush >= intervalMs + jitter\<close>. With \<^verbatim>\<open>jobsPerSecond\<close> zero
  the interval is \<^verbatim>\<open>Infinity\<close> (and the sum \<^verbatim>\<open>Infinity\<close> or \<^verbatim>\<open>NaN\<close>), so the test fails.
\<close>

definition due :: "int \<Rightarrow> draws \<Rightarrow> TeamState \<Rightarrow> bool" where
  "due now d t =
     (let timeSinceLastPush = real_of_int (now - lastPushTime t)
      in jobsPerSecond (tier t) \<noteq> 0 \<and> timeSinceLastPush \<ge> intervalMs t + jitter d t)"

text \<open>The job pushed for team \<open>t\<close>, whose counter has already been incremented.\<close>

definition generatedJob :: "int \<Rightarrow> draws \<Rightarrow> string \<Rightarrow> TeamState \<Rightarrow> MainQueueJob" where
  "generatedJob now d rid t =
     \<lparr>jobId = mkJobId (tsTeamId t) rid (tsJobCounter t),
      teamId = tsTeamId t,
      priority = \<lfloor>priorityDraw d * 100\<rfloor> + 1,
      createdAt = now,
      crawlId = (if crawlDraw d < 2 / 10 then Some (mkCrawlId (tsTeamId t) rid (tsJobCounter t))
                 else None)\<rparr>"

text \<open>
  The loop over \<^verbatim>\<open>this.teams.values()\<close>: the teams still to visit, and the main queue and
  the simulator's job counter as they stand; the result is the visited teams as mutated,
  the main queue and the counter.
\<close>

fun generateLoop :: "int \<Rightarrow> (string \<Rightarrow> draws) \<Rightarrow> string \<Rightarrow> (string \<times> TeamState) list
    \<Rightarrow> MainQueueJob list \<Rightarrow> int \<Rightarrow> (string \<times> TeamState) list \<times> MainQueueJob list \<times> int" where
  "generateLoop now rnd rid [] q jc = ([], q, jc)"
| "generateLoop now rnd rid ((k, t) # ts) q jc =
     (if due now (rnd (tsTeamId t)) t then
        (let t1 = t\<lparr>tsJobCounter := tsJobCounter t + 1\<rparr>;
             q1 = q @ [generatedJob now (rnd (tsTeamId t)) rid t1];
             t2 = t1\<lparr>lastPushTime := now\<rparr>
         in case generateLoop now rnd rid ts q1 (jc + 1) of
              (ts', q', jc') \<Rightarrow> ((k, t2) # ts', q', jc'))
      else
        (case generateLoop now rnd rid ts q jc of
           (ts', q', jc') \<Rightarrow> ((k, t) # ts', q', jc')))"

definition generateJobs :: "int \<Rightarrow> (string \<Rightarrow> draws) \<Rightarrow> ProductionSimulator \<Rightarrow> ProductionSimulator" where
  "generateJobs now rnd s =
     (case generateLoop now rnd (runId s) (teams s) (mainQueue s) (jobCounter s) of
        (ts', q', jc') \<Rightarrow> s\<lparr>teams := ts', mainQueue := q', jobCounter := jc'\<rparr>)"

subsection \<open>startJob, isTeamAtCapacity, pushToConcurrencyQueue\<close>

datatype js_error = TypeError

text \<open>
  \<^verbatim>\<open>startJob\<close>: \<^verbatim>\<open>this.teams.get(job.teamId)!\<close> is \<^verbatim>\<open>undefined\<close> for an unknown team and
  reading \<^verbatim>\<open>team.activeJobs\<close> then throws.
\<close>

definition startJob :: "MainQueueJob \<Rightarrow> int \<Rightarrow> bool \<Rightarrow> ProductionSimulator
    \<Rightarrow> js_error + (ActiveJob \<times> ProductionSimulator)" where
  "startJob jb now fdb s =
     (case getTeam s (teamId jb) of
        None \<Rightarrow> Inl TypeError
      | Some team \<Rightarrow>
          (let activeJob = \<lparr>ajJobId = jobId jb, queueKey = [], startTime = now, fromFDB = fdb\<rparr>
           in Inr (activeJob,
                   mutateTeam (teamId jb)
                     (\<lambda>t. t\<lparr>activeJobs := AList.update (jobId jb) activeJob (activeJobs t)\<rparr>) s)))"

definition isTeamAtCapacity :: "ProductionSimulator \<Rightarrow> string \<Rightarrow> bool" where
  "isTeamAtCapacity s tid =
     (case getTeam s tid of
        None \<Rightarrow> True
      | Some team \<Rightarrow> int (length (activeJobs team)) \<ge> concurrencyLimit (tier team))"

text \<open>
  \<^verbatim>\<open>pushToConcurrencyQueue\<close> is asynchronous. Up to its \<^verbatim>\<open>await\<close> it calls
  \<^verbatim>\<open>client.pushJob\<close> (\<open>True\<close>: the call is pending) or returns \<^verbatim>\<open>false\<close> at once for an
  unknown team; when the call has resolved to \<open>success\<close> it goes on.
\<close>

definition pushToConcurrencyQueue_call :: "MainQueueJob \<Rightarrow> ProductionSimulator \<Rightarrow> ProductionSimulator \<times> bool" where
  "pushToConcurrencyQueue_call jb s =
     (case getTeam s (teamId jb) of
        None \<Rightarrow> (s, False)
      | Some team \<Rightarrow>
          (traced (ClientPushJob (teamId jb) (jobId jb) (priority jb) (jobTimeout s) (crawlId jb)) s,
           True))"

definition pushToConcurrencyQueue_resolved :: "MainQueueJob \<Rightarrow> bool \<Rightarrow> ProductionSimulator \<Rightarrow> ProductionSimulator \<times> bool" where
  "pushToConcurrencyQueue_resolved jb success s =
     (if success then (mutateTeam (teamId jb) (\<lambda>t. t\<lparr>queuedJobs := queuedJobs t + 1\<rparr>) s, success)
      else (s, success))"

definition pushToConcurrencyQueue :: "MainQueueJob \<Rightarrow> bool \<Rightarrow> ProductionSimulator \<Rightarrow> ProductionSimulator \<times> bool" where
  "pushToConcurrencyQueue jb success s =
     (case pushToConcurrencyQueue_call jb s of
        (s1, False) \<Rightarrow> (s1, False)
      | (s1, True) \<Rightarrow> pushToConcurrencyQueue_resolved jb success s1)"

subsection \<open>completeJob\<close>

text \<open>
  \<^verbatim>\<open>completeJob\<close> is asynchronous and has two \<^verbatim>\<open>await\<close>s; it is given as the three
  pieces they separate. Each piece reads the team as it is when the piece runs.

  First piece, from the entry to \<^verbatim>\<open>await client.completeJob\<close>: \<open>None\<close> for an unknown
  team (the function returns \<^verbatim>\<open>null\<close>), else the state and whether \<^verbatim>\<open>client.completeJob\<close>
  was called.
\<close>

definition completeJob_enter :: "string \<Rightarrow> ActiveJob \<Rightarrow> ProductionSimulator \<Rightarrow> (ProductionSimulator \<times> bool) option" where
  "completeJob_enter tid activeJob s =
     (case getTeam s tid of
        None \<Rightarrow> None
      | Some team \<Rightarrow>
          (let s1 = mutateTeam tid (\<lambda>t. t\<lparr>activeJobs := AList.delete (ajJobId activeJob) (activeJobs t)\<rparr>) s;
               s2 = mutateTeam tid (\<lambda>t. t\<lparr>completedJobs := completedJobs t + 1\<rparr>) s1;
               s3 = (if fromFDB activeJob \<and> hasChecker s2
                     then traced (RecordComplete (ajJobId activeJob)) s2 else s2)
           in if queueKey activeJob \<noteq> []
              then Some (traced (ClientCompleteJob (queueKey activeJob)) s3, True)
              else Some (s3, False)))"

text \<open>
  Second piece, \<^verbatim>\<open>if (team.queuedJobs > 0)\<close> up to \<^verbatim>\<open>await client.popJob\<close>: \<open>True\<close> when
  the pop was called, \<open>False\<close> when the function returns \<^verbatim>\<open>null\<close>.
\<close>

definition completeJob_check :: "string \<Rightarrow> ProductionSimulator \<Rightarrow> ProductionSimulator \<times> bool" where
  "completeJob_check tid s =
     (case getTeam s tid of
        None \<Rightarrow> (s, False)
      | Some team \<Rightarrow>
          (if queuedJobs team > 0 then (traced (ClientPopJob tid) s, True) else (s, False)))"

text \<open>
  Third piece, after the pop has resolved to \<open>claimed\<close>. The test
  \<^verbatim>\<open>claimed && claimed.job\<close> is \<open>claimOf\<close>: the claim and its job when both are there.
\<close>

definition claimOf :: "ClaimedJob option \<Rightarrow> (ClaimedJob \<times> RemoteJob) option" where
  "claimOf claimed = (case claimed of None \<Rightarrow> None | Some c \<Rightarrow> map_option (Pair c) (job c))"

definition promotedJob :: "string \<Rightarrow> ClaimedJob \<times> RemoteJob \<Rightarrow> MainQueueJob" where
  "promotedJob tid cj =
     \<lparr>jobId = rjId (snd cj), teamId = tid, priority = rjPriority (snd cj),
      createdAt = created_at (snd cj), crawlId = crawl_id (snd cj)\<rparr>"

definition completeJob_claimed :: "string \<Rightarrow> ClaimedJob option \<Rightarrow> ProductionSimulator
    \<Rightarrow> ProductionSimulator \<times> MainQueueJob option" where
  "completeJob_claimed tid claimed s =
     (case claimOf claimed of
        None \<Rightarrow> (s, None)
      | Some cj \<Rightarrow>
          (let s1 = mutateTeam tid (\<lambda>t. t\<lparr>queuedJobs := queuedJobs t - 1\<rparr>) s;
               s2 = (if hasChecker s1 then traced (RecordClaim (fst cj) tid) s1 else s1)
           in (s2, Some (promotedJob tid cj))))"

text \<open>
  The whole call when nothing else runs in between; \<open>claimed\<close> is what the pop resolves
  to, should it be called.
\<close>

definition completeJob :: "string \<Rightarrow> ActiveJob \<Rightarrow> ClaimedJob option \<Rightarrow> ProductionSimulator
    \<Rightarrow> ProductionSimulator \<times> MainQueueJob option" where
  "completeJob tid activeJob claimed s =
     (case completeJob_enter tid activeJob s of
        None \<Rightarrow> (s, None)
      | Some (s1, _) \<Rightarrow>
          (case completeJob_check tid s1 of
             (s2, False) \<Rightarrow> (s2, None)
           | (s2, True) \<Rightarrow> completeJob_claimed tid claimed s2))"

definition getCompletableJobs :: "ProductionSimulator \<Rightarrow> TeamState \<Rightarrow> int \<Rightarrow> ActiveJob list" where
  "getCompletableJobs s team now =
     map snd (filter (\<lambda>(k, j). now - startTime j \<ge> jobProcessingDelayMs (config s)) (activeJobs team))"

subsection \<open>The tasks of runSimulation\<close>

text \<open>
  The body of the task that the main loop (\<open>drain = False\<close>) and the drain phase
  (\<open>drain = True\<close>) start for a completable job, when nothing else runs in between:
  \<^verbatim>\<open>removeActiveJob\<close>, \<^verbatim>\<open>completeJob\<close>, and in the main loop \<^verbatim>\<open>startJob\<close> of the promoted
  job with \<^verbatim>\<open>fromFDB = true\<close> and \<^verbatim>\<open>pushActiveJob\<close>. The drain phase does not read
  what \<^verbatim>\<open>completeJob\<close> returns.
\<close>

definition afterComplete :: "bool \<Rightarrow> MainQueueJob option \<Rightarrow> int \<Rightarrow> ProductionSimulator
    \<Rightarrow> js_error + (ProductionSimulator \<times> bool)" where
  "afterComplete drain promoted now s =
     (if drain then Inr (s, False)
      else
        (case promoted of
           None \<Rightarrow> Inr (s, False)
         | Some p \<Rightarrow>
             (case startJob p now True s of
                Inl e \<Rightarrow> Inl e
              | Inr (newActive, s1) \<Rightarrow>
                  Inr (traced (ClientPushActiveJob (teamId p) (jobId p) 600000) s1, True))))"

definition completionTask :: "bool \<Rightarrow> string \<Rightarrow> ActiveJob \<Rightarrow> ClaimedJob option \<Rightarrow> int
    \<Rightarrow> ProductionSimulator \<Rightarrow> js_error + ProductionSimulator" where
  "completionTask drain tid activeJob claimed now s =
     (case completeJob tid activeJob claimed (traced (ClientRemoveActiveJob tid (ajJobId activeJob)) s) of
        (s1, promoted) \<Rightarrow>
          (case afterComplete drain promoted now s1 of
             Inl e \<Rightarrow> Inl e
           | Inr (s2, _) \<Rightarrow> Inr s2))"

subsection \<open>The scheduler as a transition system\<close>

text \<open>
  JavaScript runs one piece of code at a time and switches only at an \<^verbatim>\<open>await\<close>. A
  state of the whole program is the simulator, the semaphore, the overflow buffer, and the
  tasks started with \<^verbatim>\<open>runTask\<close>, each standing at the \<^verbatim>\<open>await\<close> it has reached.
\<close>

datatype body =
    PushBody MainQueueJob
  | ActivePushBody string string
  | CompletionBody bool string ActiveJob

datatype task =
    Granted body
  | AwaitPush MainQueueJob
  | AwaitActivePush
  | AwaitRemove bool string ActiveJob
  | AwaitComplete bool string
  | AwaitPop bool string
  | Done

datatype reply = Ack bool | Claim "ClaimedJob option"

record World =
  sim :: ProductionSimulator
  semaphore :: Semaphore
  overflowQueue :: "MainQueueJob list"
  inFlight :: int
  parkedTasks :: "(nat \<times> body) list"
  runningTasks :: "(nat \<times> task) list"
  nextTask :: nat

definition newWorld :: "Config \<Rightarrow> string \<Rightarrow> World" where
  "newWorld cfg rid =
     \<lparr>sim = newSimulator cfg (correctnessChecking cfg) rid,
      semaphore = Semaphore_new (workerConcurrency cfg),
      overflowQueue = [], inFlight = 0, parkedTasks = [], runningTasks = [], nextTask = 0\<rparr>"

text \<open>
  \<^verbatim>\<open>runTask(task)\<close> up to its first \<^verbatim>\<open>await\<close>: \<^verbatim>\<open>semaphore.acquire()\<close> runs at once and
  either takes a permit or parks the caller.
\<close>

definition runTask :: "body \<Rightarrow> World \<Rightarrow> World" where
  "runTask bd w =
     (case acquire (nextTask w) (semaphore w) of
        (sem, True) \<Rightarrow>
          w\<lparr>semaphore := sem, runningTasks := runningTasks w @ [(nextTask w, Granted bd)],
            nextTask := Suc (nextTask w)\<rparr>
      | (sem, False) \<Rightarrow>
          w\<lparr>semaphore := sem, parkedTasks := parkedTasks w @ [(nextTask w, bd)],
            nextTask := Suc (nextTask w)\<rparr>)"

definition setTask :: "nat \<Rightarrow> task \<Rightarrow> World \<Rightarrow> World" where
  "setTask r t w = w\<lparr>runningTasks := AList.update r t (runningTasks w)\<rparr>"

text \<open>A task that holds a permit goes on: \<^verbatim>\<open>inFlight++\<close> and the body up to its first \<^verbatim>\<open>await\<close>.\<close>

definition startTask :: "nat \<Rightarrow> World \<Rightarrow> World option" where
  "startTask r w =
     (case map_of (runningTasks w) r of
        Some (Granted bd) \<Rightarrow>
          (let w1 = w\<lparr>inFlight := inFlight w + 1\<rparr> in
           case bd of
             PushBody jb \<Rightarrow>
               (case pushToConcurrencyQueue_call jb (sim w1) of
                  (s1, True) \<Rightarrow> Some (setTask r (AwaitPush jb) (w1\<lparr>sim := s1\<rparr>))
                | (s1, False) \<Rightarrow> Some (setTask r Done (w1\<lparr>sim := s1\<rparr>)))
           | ActivePushBody tid jid \<Rightarrow>
               Some (setTask r AwaitActivePush
                       (w1\<lparr>sim := traced (ClientPushActiveJob tid jid 600000) (sim w1)\<rparr>))
           | CompletionBody drain tid aj \<Rightarrow>
               Some (setTask r (AwaitRemove drain tid aj)
                       (w1\<lparr>sim := traced (ClientRemoveActiveJob tid (ajJobId aj)) (sim w1)\<rparr>)))
      | _ \<Rightarrow> None)"

text \<open>The rest of a completion task once \<^verbatim>\<open>completeJob\<close> has returned \<open>promoted\<close>.\<close>

definition promote :: "nat \<Rightarrow> bool \<Rightarrow> MainQueueJob option \<Rightarrow> int \<Rightarrow> World \<Rightarrow> World option" where
  "promote r drain promoted now w =
     (case afterComplete drain promoted now (sim w) of
        Inl e \<Rightarrow> None
      | Inr (s1, True) \<Rightarrow> Some (setTask r AwaitActivePush (w\<lparr>sim := s1\<rparr>))
      | Inr (s1, False) \<Rightarrow> Some (setTask r Done (w\<lparr>sim := s1\<rparr>)))"

definition checkQueued :: "nat \<Rightarrow> bool \<Rightarrow> string \<Rightarrow> int \<Rightarrow> World \<Rightarrow> World option" where
  "checkQueued r drain tid now w =
     (case completeJob_check tid (sim w) of
        (s1, True) \<Rightarrow> Some (setTask r (AwaitPop drain tid) (w\<lparr>sim := s1\<rparr>))
      | (s1, False) \<Rightarrow> promote r drain None now (w\<lparr>sim := s1\<rparr>))"

text \<open>
  The call a task waits for resolves to \<open>rep\<close> at time \<open>now\<close>, and the task runs to its
  next \<^verbatim>\<open>await\<close> or to its end.
\<close>

definition resolveTask :: "nat \<Rightarrow> reply \<Rightarrow> int \<Rightarrow> World \<Rightarrow> World option" where
  "resolveTask r rep now w =
     (case (map_of (runningTasks w) r, rep) of
        (Some (AwaitPush jb), Ack ok) \<Rightarrow>
          Some (setTask r Done (w\<lparr>sim := fst (pushToConcurrencyQueue_resolved jb ok (sim w))\<rparr>))
      | (Some AwaitActivePush, Ack ok) \<Rightarrow> Some (setTask r Done w)
      | (Some (AwaitRemove drain tid aj), Ack ok) \<Rightarrow>
          (case completeJob_enter tid aj (sim w) of
             None \<Rightarrow> promote r drain None now w
           | Some (s1, True) \<Rightarrow> Some (setTask r (AwaitComplete drain tid) (w\<lparr>sim := s1\<rparr>))
           | Some (s1, False) \<Rightarrow> checkQueued r drain tid now (w\<lparr>sim := s1\<rparr>))
      | (Some (AwaitComplete drain tid), Ack ok) \<Rightarrow> checkQueued r drain tid now w
      | (Some (AwaitPop drain tid), Claim c) \<Rightarrow>
          (case completeJob_claimed tid c (sim w) of
             (s1, promoted) \<Rightarrow> promote r drain promoted now (w\<lparr>sim := s1\<rparr>))
      | _ \<Rightarrow> None)"

text \<open>
  The \<^verbatim>\<open>finally\<close> of \<^verbatim>\<open>runTask\<close>: \<^verbatim>\<open>inFlight--\<close> and \<^verbatim>\<open>semaphore.release()\<close>, which hands
  the permit to the first parked task, if there is one.
\<close>

definition finallyTask :: "nat \<Rightarrow> World \<Rightarrow> World option" where
  "finallyTask r w =
     (case map_of (runningTasks w) r of
        Some Done \<Rightarrow>
          (let w1 = w\<lparr>runningTasks := AList.delete r (runningTasks w), inFlight := inFlight w - 1\<rparr> in
           case release (semaphore w1) of
             (sem, None) \<Rightarrow> Some (w1\<lparr>semaphore := sem\<rparr>)
           | (sem, Some r') \<Rightarrow>
               (case map_of (parkedTasks w1) r' of
                  None \<Rightarrow> Some (w1\<lparr>semaphore := sem\<rparr>)
                | Some bd \<Rightarrow>
                    Some (w1\<lparr>semaphore := sem, parkedTasks := AList.delete r' (parkedTasks w1),
                             runningTasks := runningTasks w1 @ [(r', Granted bd)]\<rparr>)))
      | _ \<Rightarrow> None)"

text \<open>Phase 2 of the main loop: every job of the overflow buffer gets a push task.\<close>

definition phaseB :: "World \<Rightarrow> World" where
  "phaseB w = fold (\<lambda>jb. runTask (PushBody jb)) (overflowQueue w) (w\<lparr>overflowQueue := []\<rparr>)"

text \<open>
  Phase 3, \<^verbatim>\<open>for (let i = 0; i < 100 && semaphore.available > 0; i++)\<close>, with the
  number of rounds that are left.
\<close>

fun phaseC :: "nat \<Rightarrow> int \<Rightarrow> World \<Rightarrow> World option" where
  "phaseC 0 now w = Some w"
| "phaseC (Suc n) now w =
     (if available (semaphore w) > 0 then
        (case pickJobFromMainQueue (sim w) of
           (None, s1) \<Rightarrow> Some w
         | (Some jb, s1) \<Rightarrow>
             (if isTeamAtCapacity s1 (teamId jb)
              then phaseC n now (w\<lparr>sim := s1, overflowQueue := overflowQueue w @ [jb]\<rparr>)
              else
                (case startJob jb now False s1 of
                   Inl e \<Rightarrow> None
                 | Inr (activeJob, s2) \<Rightarrow>
                     phaseC n now (runTask (ActivePushBody (teamId jb) (jobId jb)) (w\<lparr>sim := s2\<rparr>)))))
      else Some w)"

text \<open>Phase 4 and the drain loop: a task for every completable job of every team.\<close>

definition phaseD :: "bool \<Rightarrow> int \<Rightarrow> World \<Rightarrow> World" where
  "phaseD drain now w =
     fold (\<lambda>(tid, aj). runTask (CompletionBody drain tid aj))
       (concat (map (\<lambda>(k, t). map (\<lambda>aj. (tsTeamId t, aj)) (getCompletableJobs (sim w) t now))
                    (teams (sim w))))
       w"

text \<open>
  One round of the main loop up to its \<^verbatim>\<open>await\<close> (\<open>Tick\<close>), one round of the drain loop
  (\<open>DrainTick\<close>), and the three ways a task moves.
\<close>

datatype event =
    Tick int "string \<Rightarrow> draws"
  | DrainTick int
  | Start nat
  | Resolve nat reply int
  | Finally nat

fun step :: "event \<Rightarrow> World \<Rightarrow> World option" where
  "step (Tick now rnd) w =
     map_option (phaseD False now) (phaseC 100 now (phaseB (w\<lparr>sim := generateJobs now rnd (sim w)\<rparr>)))"
| "step (DrainTick now) w = Some (phaseD True now w)"
| "step (Start r) w = startTask r w"
| "step (Resolve r rep now) w = resolveTask r rep now w"
| "step (Finally r) w = finallyTask r w"

fun run :: "event list \<Rightarrow> World \<Rightarrow> World option" where
  "run [] w = Some w"
| "run (e # es) w = (case step e w of None \<Rightarrow> None | Some w' \<Rightarrow> run es w')"

subsection \<open>The client of the queue service\<close>

text \<open>
  \<^verbatim>\<open>FDBQueueClient\<close>. Its collaborators are kept as what they receive: \<open>metrics\<close> is the
  list of the calls of \<^verbatim>\<open>metrics.record\<close>, \<open>claimsRecorded\<close> the calls of
  \<^verbatim>\<open>correctnessChecker.recordClaim\<close> (made only when \<open>clientChecker\<close> says there is a
  checker), \<open>sent\<close> the requests given to \<^verbatim>\<open>fetch\<close>.
\<close>

datatype OperationType =
    OpPush | OpPop | OpComplete | OpRelease | OpActivePush | OpActiveRemove | OpActiveCount
  | OpTeamQueueCount

datatype httpMethod = GET | POST | DELETE

record MetricsRecord =
  operationType :: OperationType
  latencyMs :: real
  success :: bool
  httpStatus :: "int option"
  errorMessage :: "string option"
  responseBody :: "string option"

datatype requestBody =
    PushJobRequest string string int int int "string option"
  | PopJobRequest string "string list"
  | CompleteJobRequest string
  | ReleaseJobRequest string
  | PushActiveJobRequest string string int
  | RemoveActiveJobRequest string string

record httpRequest =
  reqMethod :: httpMethod
  reqUrl :: string
  reqBody :: "requestBody option"

text \<open>
  What \<^verbatim>\<open>fetch\<close> and the reading of the body come to: \<^verbatim>\<open>fetch\<close> rejects with a
  message, or there is a response with status and status text whose body can be read
  (\<^verbatim>\<open>response.text()\<close>, \<^verbatim>\<open>response.json()\<close>) or cannot.
\<close>

datatype bodyRead = BodyFailed string | BodyText string

datatype fetched = FetchRejected string | Responded int string bodyRead

record 'a RequestResult =
  resultData :: "'a option"
  resultSuccess :: bool
  resultError :: "string option"

record FDBQueueClient =
  baseUrl :: string
  metrics :: "MetricsRecord list"
  verbose :: bool
  workerId :: string
  clientChecker :: bool
  claimsRecorded :: "(ClaimedJob \<times> string) list"
  sent :: "httpRequest list"

text \<open>\<^verbatim>\<open>response.ok\<close>: the status is in the range 200 to 299.\<close>

definition responseOk :: "int \<Rightarrow> bool" where
  "responseOk status = (200 \<le> status \<and> status \<le> 299)"

text \<open>The \<^verbatim>\<open>catch\<close> block of \<^verbatim>\<open>request\<close>.\<close>

definition networkFailure :: "OperationType \<Rightarrow> real \<Rightarrow> string \<Rightarrow> FDBQueueClient
    \<Rightarrow> FDBQueueClient \<times> 'a RequestResult" where
  "networkFailure opType latency msg c =
     (c\<lparr>metrics := metrics c @
          [\<lparr>operationType = opType, latencyMs = latency, success = False, httpStatus = None,
            errorMessage = Some (''Network error: '' @ msg), responseBody = None\<rparr>]\<rparr>,
      \<lparr>resultData = None, resultSuccess = False, resultError = Some msg\<rparr>)"

text \<open>
  \<^verbatim>\<open>request\<close>. \<open>parseJson\<close> is \<^verbatim>\<open>JSON.parse\<close> with the cast to the result type (\<open>Inl\<close>
  for its error message); \<open>clock\<close> gives the readings of \<^verbatim>\<open>performance.now()\<close> in the
  order they are taken: at the start, after \<^verbatim>\<open>fetch\<close> has resolved or in the \<^verbatim>\<open>catch\<close>,
  and in a \<^verbatim>\<open>catch\<close> entered later. Console output is left out.
\<close>

definition request :: "httpMethod \<Rightarrow> string \<Rightarrow> OperationType \<Rightarrow> requestBody option
    \<Rightarrow> (string \<Rightarrow> string + 'a) \<Rightarrow> fetched \<Rightarrow> (nat \<Rightarrow> real) \<Rightarrow> FDBQueueClient
    \<Rightarrow> FDBQueueClient \<times> 'a RequestResult" where
  "request m path opType body parseJson outcome clock c =
     (let url = baseUrl c @ path;
          startTime = clock 0;
          c0 = c\<lparr>sent := sent c @ [\<lparr>reqMethod = m, reqUrl = url, reqBody = body\<rparr>]\<rparr>
      in case outcome of
           FetchRejected msg \<Rightarrow> networkFailure opType (clock 1 - startTime) msg c0
         | Responded status statusText rd \<Rightarrow>
             (let latency = clock 1 - startTime in
              if \<not> responseOk status then
                (case rd of
                   BodyFailed msg \<Rightarrow> networkFailure opType (clock 2 - startTime) msg c0
                 | BodyText content \<Rightarrow>
                     (let errorMsg = ''HTTP '' @ show_int status @ '' '' @ statusText @ '': '' @ path
                      in (c0\<lparr>metrics := metrics c0 @
                               [\<lparr>operationType = opType, latencyMs = latency, success = False,
                                 httpStatus = Some status, errorMessage = Some errorMsg,
                                 responseBody = Some content\<rparr>]\<rparr>,
                          \<lparr>resultData = None, resultSuccess = False,
                           resultError = Some (errorMsg @ [CHR 0x0A] @ content)\<rparr>)))
              else
                (case rd of
                   BodyFailed msg \<Rightarrow> networkFailure opType (clock 2 - startTime) msg c0
                 | BodyText content \<Rightarrow>
                     (case parseJson content of
                        Inl msg \<Rightarrow> networkFailure opType (clock 2 - startTime) msg c0
                      | Inr v \<Rightarrow>
                          (c0\<lparr>metrics := metrics c0 @
                                [\<lparr>operationType = opType, latencyMs = latency, success = True,
                                  httpStatus = None, errorMessage = None, responseBody = None\<rparr>]\<rparr>,
                           \<lparr>resultData = Some v, resultSuccess = True, resultError = None\<rparr>)))))"

text \<open>
  \<^verbatim>\<open>popJob\<close>: one \<^verbatim>\<open>request\<close>, then \<^verbatim>\<open>recordClaim\<close> for a claim with a job.
\<close>

definition popJob :: "string \<Rightarrow> (string \<Rightarrow> string + ClaimedJob option) \<Rightarrow> fetched \<Rightarrow> (nat \<Rightarrow> real)
    \<Rightarrow> FDBQueueClient \<Rightarrow> FDBQueueClient \<times> ClaimedJob option" where
  "popJob tid parseJson outcome clock c =
     (case request POST (''/queue/pop/'' @ tid) OpPop (Some (PopJobRequest (workerId c) []))
             parseJson outcome clock c of
        (c1, result) \<Rightarrow>
          (let claimed = (case resultData result of None \<Rightarrow> None | Some d \<Rightarrow> d) in
           case claimOf claimed of
             None \<Rightarrow> (c1, claimed)
           | Some cj \<Rightarrow>
               ((if clientChecker c1
                 then c1\<lparr>claimsRecorded := claimsRecorded c1 @ [(fst cj, tid)]\<rparr> else c1),
                claimed)))"






subsection \<open>Concrete inputs\<close>

text \<open>
  One tier with one team, at most one active job, a hundred jobs per second (one every
  10 ms), 25 ms of processing, ten workers and a checker; every draw of \<^verbatim>\<open>Math.random()\<close>
  is one half (no jitter, no crawl id, priority 51).
\<close>

definition cfgSolo :: Config where
  "cfgSolo =
     \<lparr>teamTiers = [\<lparr>tierName = ''solo'', teamCount = 1, concurrencyLimit = 1, jobsPerSecond = 100\<rparr>],
      jobProcessingDelayMs = 25, workerConcurrency = 10, correctnessChecking = True\<rparr>"

definition midDraws :: "string \<Rightarrow> draws" where
  "midDraws = (\<lambda>_. \<lparr>jitterDraw = 1 / 2, crawlDraw = 1 / 2, priorityDraw = 1 / 2\<rparr>)"

text \<open>The claim the queue service returns for the \<open>n\<close>-th job of the team, created at \<open>t\<close>.\<close>

definition claimOfJob :: "nat \<Rightarrow> int \<Rightarrow> ClaimedJob" where
  "claimOfJob n t =
     \<lparr>job = Some \<lparr>rjId = ''stress-team-000000-r-job-'' @ dec n, rjPriority = 51,
                   created_at = t, crawl_id = None\<rparr>,
      cjQueueKey = ''key-'' @ dec n\<rparr>"

text \<open>
  Per team: the ids of the active jobs, the tier's limit, \<^verbatim>\<open>queuedJobs\<close> and
  \<^verbatim>\<open>completedJobs\<close>.
\<close>

definition teamView :: "World \<Rightarrow> (string list \<times> int \<times> int \<times> int) list" where
  "teamView w =
     map (\<lambda>(k, t). (map fst (activeJobs t), concurrencyLimit (tier t), queuedJobs t, completedJobs t))
       (teams (sim w))"

text \<open>
  The first rounds of a run, with the time of each in ms. At 1000 job 1 is generated and
  started (task 0 reports it active). At 1010 job 2 is generated while job 1 is active and
  goes to the overflow buffer; at 1011 task 1 pushes it and the queue service accepts it
  (\<^verbatim>\<open>queuedJobs = 1\<close>). At 1020 job 3 is generated and overflows; at 1021 task 2 sends
  its push.
\<close>

definition warmUp :: "event list" where
  "warmUp =
     [Tick 1000 midDraws, Start 0, Resolve 0 (Ack True) 1001, Finally 0,
      Tick 1010 midDraws,
      Tick 1011 midDraws, Start 1, Resolve 1 (Ack True) 1012, Finally 1,
      Tick 1020 midDraws,
      Tick 1021 midDraws, Start 2]"

text \<open>
  Then, in the main loop: the push of job 3 is accepted. At 1025 job 1 is completable and
  task 3 is started for it; at 1026 its \<^verbatim>\<open>removeActiveJob\<close> has resolved, \<^verbatim>\<open>completeJob\<close>
  removes job 1 and waits for the pop. The round at 1030 generates job 4, finds the team
  below its limit and starts it. At 1031 the pop of task 3 returns job 2.
\<close>

definition dispatchDuringPop :: "event list" where
  "dispatchDuringPop =
     warmUp @
     [Resolve 2 (Ack True) 1022, Finally 2,
      Tick 1025 midDraws, Start 3, Resolve 3 (Ack True) 1026,
      Tick 1030 midDraws, Start 4,
      Resolve 3 (Claim (Some (claimOfJob 2 1010))) 1031]"

text \<open>
  Or: the push of job 3 is still unanswered. A round at 1025 starts task 3 to complete
  job 1, and the next round, in which job 1 is still active, starts task 4 for the same
  job. Both tasks find \<^verbatim>\<open>queuedJobs = 1\<close> and pop; the queue service has job 2 and job 3.
\<close>

definition completedTwice :: "event list" where
  "completedTwice =
     warmUp @
     [Tick 1025 midDraws, Start 3,
      Tick 1025 midDraws, Start 4,
      Resolve 3 (Ack True) 1026, Resolve 4 (Ack True) 1026,
      Resolve 3 (Claim (Some (claimOfJob 2 1010))) 1027,
      Resolve 4 (Claim (Some (claimOfJob 3 1020))) 1027]"

text \<open>
  Or: the push of job 3 is accepted (\<^verbatim>\<open>queuedJobs = 2\<close>), the main loop ends and the
  drain phase runs; job 1 is completable at 1025, its task pops and gets job 2.
\<close>

definition drainWithQueued :: "event list" where
  "drainWithQueued =
     warmUp @
     [Resolve 2 (Ack True) 1022, Finally 2,
      DrainTick 1025, Start 3, Resolve 3 (Ack True) 1026,
      Resolve 3 (Claim (Some (claimOfJob 2 1010))) 1027, Finally 3]"

text \<open>A simulator with one team, one slot, job \<open>a\<close> active and one job queued remotely.\<close>

definition teamT :: TeamState where
  "teamT =
     \<lparr>tsTeamId = ''t'',
      tier = \<lparr>tierName = ''one'', teamCount = 1, concurrencyLimit = 1, jobsPerSecond = 2\<rparr>,
      activeJobs = [(''a'', \<lparr>ajJobId = ''a'', queueKey = [], startTime = 0, fromFDB = False\<rparr>)],
      queuedJobs = 1, completedJobs = 0, lastPushTime = 0, tsJobCounter = 1\<rparr>"

definition simT :: ProductionSimulator where
  "simT =
     \<lparr>teams = [(''t'', teamT)], mainQueue = [], jobTimeout = 600000, hasChecker = True,
      runId = ''r'',
      config = \<lparr>teamTiers = [], jobProcessingDelayMs = 0, workerConcurrency = 1,
                correctnessChecking = True\<rparr>,
      jobCounter = 1, calls = []\<rparr>"

definition jobFromFDB :: ActiveJob where
  "jobFromFDB = \<lparr>ajJobId = ''a'', queueKey = ''qk'', startTime = 0, fromFDB = True\<rparr>"

definition claimB :: ClaimedJob where
  "claimB =
     \<lparr>job = Some \<lparr>rjId = ''b'', rjPriority = 10, created_at = 5, crawl_id = Some ''c''\<rparr>,
      cjQueueKey = ''qb''\<rparr>"

definition jobB :: MainQueueJob where
  "jobB = \<lparr>jobId = ''b'', teamId = ''t'', priority = 10, createdAt = 5, crawlId = Some ''c''\<rparr>"

definition q4 :: "MainQueueJob list" where
  "q4 = [\<lparr>jobId = ''a'', teamId = ''t1'', priority = 5, createdAt = 0, crawlId = None\<rparr>,
         \<lparr>jobId = ''b'', teamId = ''t2'', priority = 3, createdAt = 1, crawlId = None\<rparr>,
         \<lparr>jobId = ''c'', teamId = ''t1'', priority = 3, createdAt = 2, crawlId = None\<rparr>,
         \<lparr>jobId = ''d'', teamId = ''t2'', priority = 7, createdAt = 3, crawlId = None\<rparr>]"






section \<open>Properties\<close>

subsection \<open>Semaphore\<close>

lemma sem_step_inv:
  assumes "sem_step x (s, parked, woken) = (s', parked', woken')"
    and "0 \<le> permits s" and "waiting s \<noteq> [] \<longrightarrow> permits s = 0"
    and "parked = woken @ waiting s"
  shows "0 \<le> permits s' \<and> (waiting s' \<noteq> [] \<longrightarrow> permits s' = 0) \<and> parked' = woken' @ waiting s'"
proof (cases x)
  case (Acquire r)
  with assms show ?thesis
    by (auto simp: acquire_def split: if_splits)
next
  case Release
  with assms show ?thesis
    by (cases "waiting s") (auto simp: release_def)
qed

lemma sem_run_inv:
  "sem_run xs (s, parked, woken) = (s', parked', woken') \<Longrightarrow>
   0 \<le> permits s \<Longrightarrow> (waiting s \<noteq> [] \<longrightarrow> permits s = 0) \<Longrightarrow>
   parked = woken @ waiting s \<Longrightarrow>
   0 \<le> permits s' \<and> (waiting s' \<noteq> [] \<longrightarrow> permits s' = 0) \<and> parked' = woken' @ waiting s'"
proof (induction xs arbitrary: s parked woken)
  case Nil
  then show ?case by auto
next
  case (Cons x xs)
  obtain s1 p1 w1 where st: "sem_step x (s, parked, woken) = (s1, p1, w1)"
    by (cases "sem_step x (s, parked, woken)") auto
  from sem_step_inv [OF st Cons.prems(2) Cons.prems(3) Cons.prems(4)]
  have i1: "0 \<le> permits s1" "waiting s1 \<noteq> [] \<longrightarrow> permits s1 = 0" "p1 = w1 @ waiting s1"
    by auto
  from Cons.prems(1) st have "sem_run xs (s1, p1, w1) = (s', parked', woken')"
    by simp
  from Cons.IH [OF this i1] show ?case .
qed

text \<open>
  C10. Started with a non-negative number of permits, the semaphore keeps, after every
  sequence of \<^verbatim>\<open>acquire\<close> and \<^verbatim>\<open>release\<close> calls, \<open>permits \<ge> 0\<close>, and \<open>permits = 0\<close>
  whenever an acquirer is waiting; the acquirers are woken in the order in which they were
  parked (the parked ones are the woken ones followed by the ones still waiting). A
  \<^verbatim>\<open>release\<close> with a waiter wakes the first of \<^verbatim>\<open>waiting\<close> and leaves \<open>permits\<close> as it is;
  with no waiter it adds one permit and wakes nobody.
\<close>

theorem C10_semaphore_invariant:
  assumes "0 \<le> n"
    and "sem_run xs (Semaphore_new n, [], []) = (s, parked, woken)"
  shows "0 \<le> permits s \<and> (waiting s \<noteq> [] \<longrightarrow> permits s = 0) \<and> parked = woken @ waiting s
    \<and> permits (fst (release s)) = (if waiting s = [] then permits s + 1 else permits s)
    \<and> snd (release s) = (if waiting s = [] then None else Some (hd (waiting s)))
    \<and> waiting (fst (release s)) = tl (waiting s)"
proof -
  have "0 \<le> permits s \<and> (waiting s \<noteq> [] \<longrightarrow> permits s = 0) \<and> parked = woken @ waiting s"
    using sem_run_inv [OF assms(2)] assms(1) by (simp add: Semaphore_new_def)
  moreover have "permits (fst (release s)) = (if waiting s = [] then permits s + 1 else permits s)"
    by (cases "waiting s") (simp_all add: release_def)
  moreover have "snd (release s) = (if waiting s = [] then None else Some (hd (waiting s)))"
    by (cases "waiting s") (simp_all add: release_def)
  moreover have "waiting (fst (release s)) = tl (waiting s)"
    by (cases "waiting s") (simp_all add: release_def)
  ultimately show ?thesis by blast
qed

theorem C10_semaphore_invariant_witness:
  "sem_run [Acquire 1, Acquire 2, Acquire 3, Release] (Semaphore_new 1, [], [])
     = (\<lparr>permits = 0, waiting = [3]\<rparr>, [2, 3], [2])
   \<and> permits (fst (release \<lparr>permits = 0, waiting = [3]\<rparr>)) = 0
   \<and> snd (release \<lparr>permits = 0, waiting = [3]\<rparr>) = Some 3"
proof -
  have run: "sem_run [Acquire 1, Acquire 2, Acquire 3, Release] (Semaphore_new 1, [], [])
     = (\<lparr>permits = 0, waiting = [3]\<rparr>, [2, 3], [2])"
    by (simp add: Semaphore_new_def acquire_def release_def)
  from C10_semaphore_invariant [OF _ run] show ?thesis
    using run by simp
qed

subsection \<open>pickJobFromMainQueue\<close>

text \<open>
  The invariant of the scan: \<open>bestIdx\<close> is the first position, among those already
  visited, that holds the least priority seen so far.
\<close>

lemma pick_scan_least:
  "b < i \<Longrightarrow> i \<le> length q \<Longrightarrow> p = priority (q ! b) \<Longrightarrow>
   (\<forall>j<i. p \<le> priority (q ! j)) \<Longrightarrow> (\<forall>j<b. p < priority (q ! j)) \<Longrightarrow>
   pick_scan q i b p < length q
   \<and> (\<forall>j<length q. priority (q ! pick_scan q i b p) \<le> priority (q ! j))
   \<and> (\<forall>j<pick_scan q i b p. priority (q ! pick_scan q i b p) < priority (q ! j))"
proof (induction q i b p rule: pick_scan.induct)
  case (1 q i bestIdx bestPriority)
  show ?case
  proof (cases "i < length q")
    case False
    have stop: "pick_scan q i bestIdx bestPriority = bestIdx"
      using False by (simp add: pick_scan.simps [of q i])
    from False "1.prems" have "i = length q" by simp
    with "1.prems" show ?thesis
      unfolding stop by simp
  next
    case inside: True
    show ?thesis
    proof (cases "priority (q ! i) < bestPriority")
      case True
      have seen: "\<forall>j<i + 1. priority (q ! i) \<le> priority (q ! j)"
      proof (intro allI impI)
        fix j assume "j < i + 1"
        then consider "j < i" | "j = i" by linarith
        then show "priority (q ! i) \<le> priority (q ! j)"
        proof cases
          case 1
          with "1.prems"(4) have "bestPriority \<le> priority (q ! j)" by simp
          with True show ?thesis by simp
        next
          case 2
          then show ?thesis by simp
        qed
      qed
      have first: "\<forall>j<i. priority (q ! i) < priority (q ! j)"
        using "1.prems"(4) True by fastforce
      have "pick_scan q i bestIdx bestPriority = pick_scan q (i + 1) i (priority (q ! i))"
        using inside True by (simp add: pick_scan.simps [of q i])
      moreover from "1.IH"(1) [OF inside True _ _ refl seen first] inside
      have "pick_scan q (i + 1) i (priority (q ! i)) < length q
        \<and> (\<forall>j<length q. priority (q ! pick_scan q (i + 1) i (priority (q ! i))) \<le> priority (q ! j))
        \<and> (\<forall>j<pick_scan q (i + 1) i (priority (q ! i)).
              priority (q ! pick_scan q (i + 1) i (priority (q ! i))) < priority (q ! j))"
        by simp
      ultimately show ?thesis by simp
    next
      case False
      have seen: "\<forall>j<i + 1. bestPriority \<le> priority (q ! j)"
      proof (intro allI impI)
        fix j assume "j < i + 1"
        then consider "j < i" | "j = i" by linarith
        then show "bestPriority \<le> priority (q ! j)"
        proof cases
          case 1
          with "1.prems"(4) show ?thesis by simp
        next
          case 2
          with False show ?thesis by simp
        qed
      qed
      have "pick_scan q i bestIdx bestPriority = pick_scan q (i + 1) bestIdx bestPriority"
        using inside False by (simp add: pick_scan.simps [of q i])
      moreover from "1.IH"(2) [OF inside False _ _ "1.prems"(3) seen "1.prems"(5)] inside "1.prems"(1)
      have "pick_scan q (i + 1) bestIdx bestPriority < length q
        \<and> (\<forall>j<length q. priority (q ! pick_scan q (i + 1) bestIdx bestPriority) \<le> priority (q ! j))
        \<and> (\<forall>j<pick_scan q (i + 1) bestIdx bestPriority.
              priority (q ! pick_scan q (i + 1) bestIdx bestPriority) < priority (q ! j))"
        by simp
      ultimately show ?thesis by simp
    qed
  qed
qed

text \<open>
  C4. On the empty main queue \<^verbatim>\<open>pickJobFromMainQueue\<close> returns null and changes nothing.
  On a non-empty one it returns the entry at a position \<open>k\<close> whose priority is least in
  the whole queue and strictly less than that of every earlier entry (so among equal
  least priorities the earliest inserted wins), and the queue that remains is the old
  one without position \<open>k\<close>: the entries before \<open>k\<close> followed by the entries after it.
\<close>

theorem C4_pick_least_priority_earliest:
  "(mainQueue s = [] \<longrightarrow> pickJobFromMainQueue s = (None, s))
   \<and> (mainQueue s \<noteq> [] \<longrightarrow>
        (\<exists>k<length (mainQueue s).
            pickJobFromMainQueue s
              = (Some (mainQueue s ! k),
                 s\<lparr>mainQueue := take k (mainQueue s) @ drop (Suc k) (mainQueue s)\<rparr>)
          \<and> (\<forall>j<length (mainQueue s). priority (mainQueue s ! k) \<le> priority (mainQueue s ! j))
          \<and> (\<forall>j<k. priority (mainQueue s ! k) < priority (mainQueue s ! j))))"
proof (cases "mainQueue s = []")
  case True
  then show ?thesis by (simp add: pickJobFromMainQueue_def)
next
  case False
  define q where "q = mainQueue s"
  define k where "k = pick_scan q 1 0 (priority (q ! 0))"
  from False have len: "1 \<le> length q" by (cases q) (simp_all add: q_def)
  have "\<forall>j<1. priority (q ! 0) \<le> priority (q ! j)" by simp
  from pick_scan_least [OF _ len refl this] have
    k: "k < length q" "\<forall>j<length q. priority (q ! k) \<le> priority (q ! j)"
       "\<forall>j<k. priority (q ! k) < priority (q ! j)"
    by (simp_all add: k_def)
  have "pickJobFromMainQueue s = (Some (q ! k), s\<lparr>mainQueue := take k q @ drop (Suc k) q\<rparr>)"
    using False by (simp add: pickJobFromMainQueue_def Let_def q_def k_def)
  with k False show ?thesis unfolding q_def by blast
qed

theorem C4_pick_least_priority_earliest_witness:
  "pickJobFromMainQueue
     \<lparr>teams = [], mainQueue = q4, jobTimeout = 600000, hasChecker = False, runId = ''r'',
      config = \<lparr>teamTiers = [], jobProcessingDelayMs = 0, workerConcurrency = 1,
                correctnessChecking = False\<rparr>,
      jobCounter = 0, calls = []\<rparr>
   = (Some (q4 ! 1),
      \<lparr>teams = [], mainQueue = [q4 ! 0, q4 ! 2, q4 ! 3], jobTimeout = 600000, hasChecker = False,
       runId = ''r'',
       config = \<lparr>teamTiers = [], jobProcessingDelayMs = 0, workerConcurrency = 1,
                 correctnessChecking = False\<rparr>,
       jobCounter = 0, calls = []\<rparr>)
   \<and> pickJobFromMainQueue
       \<lparr>teams = [], mainQueue = [], jobTimeout = 600000, hasChecker = False, runId = ''r'',
        config = \<lparr>teamTiers = [], jobProcessingDelayMs = 0, workerConcurrency = 1,
                  correctnessChecking = False\<rparr>,
        jobCounter = 0, calls = []\<rparr>
     = (None,
        \<lparr>teams = [], mainQueue = [], jobTimeout = 600000, hasChecker = False, runId = ''r'',
         config = \<lparr>teamTiers = [], jobProcessingDelayMs = 0, workerConcurrency = 1,
                   correctnessChecking = False\<rparr>,
         jobCounter = 0, calls = []\<rparr>)"
  using C4_pick_least_priority_earliest
    [of "\<lparr>teams = [], mainQueue = q4, jobTimeout = 600000, hasChecker = False, runId = ''r'',
      config = \<lparr>teamTiers = [], jobProcessingDelayMs = 0, workerConcurrency = 1,
                correctnessChecking = False\<rparr>,
      jobCounter = 0, calls = []\<rparr>"]
    C4_pick_least_priority_earliest
    [of "\<lparr>teams = [], mainQueue = [], jobTimeout = 600000, hasChecker = False, runId = ''r'',
      config = \<lparr>teamTiers = [], jobProcessingDelayMs = 0, workerConcurrency = 1,
                correctnessChecking = False\<rparr>,
      jobCounter = 0, calls = []\<rparr>"]
  by (simp add: pickJobFromMainQueue_def q4_def pick_scan.simps)

subsection \<open>The simulator's operations\<close>

lemma getTeam_mutateTeam:
  "getTeam (mutateTeam tid f s) t = (if t = tid then map_option f (getTeam s tid) else getTeam s t)"
  by (auto simp: getTeam_def mutateTeam_def map_of_map_entry split: option.splits)

lemma getTeam_traced: "getTeam (traced c s) t = getTeam s t"
  by (simp add: getTeam_def traced_def)

lemma calls_mutateTeam: "calls (mutateTeam tid f s) = calls s"
  by (simp add: mutateTeam_def)

lemma calls_traced: "calls (traced c s) = calls s @ [c]"
  by (simp add: traced_def)

lemma hasChecker_mutateTeam: "hasChecker (mutateTeam tid f s) = hasChecker s"
  by (simp add: mutateTeam_def)

lemma hasChecker_traced: "hasChecker (traced c s) = hasChecker s"
  by (simp add: traced_def)

lemma mainQueue_mutateTeam: "mainQueue (mutateTeam tid f s) = mainQueue s"
  by (simp add: mutateTeam_def)

lemma mainQueue_traced: "mainQueue (traced c s) = mainQueue s"
  by (simp add: traced_def)

lemmas sim_simps = getTeam_mutateTeam getTeam_traced calls_mutateTeam calls_traced
  hasChecker_mutateTeam hasChecker_traced mainQueue_mutateTeam mainQueue_traced

lemma completeJob_enter_known:
  assumes "getTeam s tid = Some team"
  shows "\<exists>s1. completeJob_enter tid aj s = Some (s1, queueKey aj \<noteq> [])
    \<and> getTeam s1 tid = Some (team\<lparr>activeJobs := AList.delete (ajJobId aj) (activeJobs team),
                                   completedJobs := completedJobs team + 1\<rparr>)
    \<and> (\<forall>t. t \<noteq> tid \<longrightarrow> getTeam s1 t = getTeam s t)
    \<and> mainQueue s1 = mainQueue s \<and> hasChecker s1 = hasChecker s
    \<and> calls s1 = calls s
         @ (if fromFDB aj \<and> hasChecker s then [RecordComplete (ajJobId aj)] else [])
         @ (if queueKey aj \<noteq> [] then [ClientCompleteJob (queueKey aj)] else [])"
  using assms by (simp add: completeJob_enter_def Let_def sim_simps)

lemma completeJob_check_known:
  assumes "getTeam s tid = Some team"
  shows "\<exists>s1. completeJob_check tid s = (s1, queuedJobs team > 0)
    \<and> (\<forall>t. getTeam s1 t = getTeam s t)
    \<and> mainQueue s1 = mainQueue s \<and> hasChecker s1 = hasChecker s
    \<and> calls s1 = calls s @ (if queuedJobs team > 0 then [ClientPopJob tid] else [])"
  using assms by (simp add: completeJob_check_def sim_simps)

lemma completeJob_claimed_known:
  assumes "getTeam s tid = Some team"
  shows "\<exists>s1. completeJob_claimed tid claimed s = (s1, map_option (promotedJob tid) (claimOf claimed))
    \<and> getTeam s1 tid = Some (team\<lparr>queuedJobs := (if claimOf claimed = None then queuedJobs team else queuedJobs team - 1)\<rparr>)
    \<and> (\<forall>t. t \<noteq> tid \<longrightarrow> getTeam s1 t = getTeam s t)
    \<and> mainQueue s1 = mainQueue s \<and> hasChecker s1 = hasChecker s
    \<and> calls s1 = calls s @ (case claimOf claimed of None \<Rightarrow> [] | Some cj \<Rightarrow> if hasChecker s then [RecordClaim (fst cj) tid] else [])"
  using assms by (auto simp: completeJob_claimed_def Let_def sim_simps split: option.splits)

text \<open>
  C2. For a known team \<^verbatim>\<open>completeJob\<close> first removes the job from \<^verbatim>\<open>activeJobs\<close> and
  increments \<^verbatim>\<open>completedJobs\<close>, then tells the checker of the completion if the job is
  \<^verbatim>\<open>fromFDB\<close> (and there is a checker), then calls \<^verbatim>\<open>client.completeJob(queueKey)\<close> if the
  queue key is not empty: this is the state \<open>s1\<close> at the first \<^verbatim>\<open>await\<close>. Then, if
  \<^verbatim>\<open>queuedJobs > 0\<close>, it calls \<^verbatim>\<open>client.popJob(teamId)\<close> (state \<open>s2\<close>). If the pop was
  made and returned a claim with a job, it decrements \<^verbatim>\<open>queuedJobs\<close>, tells the checker of
  the claim and returns the claimed job as a \<^verbatim>\<open>MainQueueJob\<close> of this team; in every
  other case, and for an unknown team, it returns null. Other teams and the main queue are
  not touched.
\<close>

theorem C2_completeJob_effects_in_order:
  "(getTeam s tid = None \<longrightarrow> completeJob tid aj claimed s = (s, None))
   \<and> (\<forall>team. getTeam s tid = Some team \<longrightarrow>
        (\<exists>s1 s2 s3.
            completeJob_enter tid aj s = Some (s1, queueKey aj \<noteq> [])
          \<and> getTeam s1 tid = Some (team\<lparr>activeJobs := AList.delete (ajJobId aj) (activeJobs team),
                                         completedJobs := completedJobs team + 1\<rparr>)
          \<and> calls s1 = calls s
               @ (if fromFDB aj \<and> hasChecker s then [RecordComplete (ajJobId aj)] else [])
               @ (if queueKey aj \<noteq> [] then [ClientCompleteJob (queueKey aj)] else [])
          \<and> completeJob_check tid s1 = (s2, 0 < queuedJobs team)
          \<and> getTeam s2 tid = getTeam s1 tid
          \<and> calls s2 = calls s1 @ (if 0 < queuedJobs team then [ClientPopJob tid] else [])
          \<and> completeJob tid aj claimed s
               = (s3, if 0 < queuedJobs team then map_option (promotedJob tid) (claimOf claimed) else None)
          \<and> getTeam s3 tid
               = Some (team\<lparr>activeJobs := AList.delete (ajJobId aj) (activeJobs team),
                            completedJobs := completedJobs team + 1,
                            queuedJobs := (if 0 < queuedJobs team \<and> claimOf claimed \<noteq> None
                                           then queuedJobs team - 1 else queuedJobs team)\<rparr>)
          \<and> calls s3 = calls s2
               @ (if 0 < queuedJobs team \<and> hasChecker s
                  then (case claimOf claimed of None \<Rightarrow> [] | Some cj \<Rightarrow> [RecordClaim (fst cj) tid])
                  else [])
          \<and> (\<forall>t. t \<noteq> tid \<longrightarrow> getTeam s3 t = getTeam s t)
          \<and> mainQueue s3 = mainQueue s))"
proof (intro conjI allI impI)
  assume "getTeam s tid = None"
  then show "completeJob tid aj claimed s = (s, None)"
    by (simp add: completeJob_def completeJob_enter_def)
next
  fix team
  assume known: "getTeam s tid = Some team"
  let ?team1 = "team\<lparr>activeJobs := AList.delete (ajJobId aj) (activeJobs team),
                     completedJobs := completedJobs team + 1\<rparr>"
  from completeJob_enter_known [OF known, of aj] obtain s1 where
    e: "completeJob_enter tid aj s = Some (s1, queueKey aj \<noteq> [])"
       "getTeam s1 tid = Some ?team1"
       "\<forall>t. t \<noteq> tid \<longrightarrow> getTeam s1 t = getTeam s t"
       "mainQueue s1 = mainQueue s" "hasChecker s1 = hasChecker s"
       "calls s1 = calls s
         @ (if fromFDB aj \<and> hasChecker s then [RecordComplete (ajJobId aj)] else [])
         @ (if queueKey aj \<noteq> [] then [ClientCompleteJob (queueKey aj)] else [])"
    by blast
  from completeJob_check_known [OF e(2)] obtain s2 where
    c: "completeJob_check tid s1 = (s2, 0 < queuedJobs team)"
       "\<forall>t. getTeam s2 t = getTeam s1 t"
       "mainQueue s2 = mainQueue s1" "hasChecker s2 = hasChecker s1"
       "calls s2 = calls s1 @ (if 0 < queuedJobs team then [ClientPopJob tid] else [])"
    by auto
  from c(2) e(2) have known2: "getTeam s2 tid = Some ?team1" by simp
  from completeJob_claimed_known [OF known2, of claimed] obtain s3' where
    p: "completeJob_claimed tid claimed s2 = (s3', map_option (promotedJob tid) (claimOf claimed))"
       "getTeam s3' tid = Some (?team1\<lparr>queuedJobs := (if claimOf claimed = None then queuedJobs ?team1 else queuedJobs ?team1 - 1)\<rparr>)"
       "\<forall>t. t \<noteq> tid \<longrightarrow> getTeam s3' t = getTeam s2 t"
       "mainQueue s3' = mainQueue s2"
       "calls s3' = calls s2 @ (case claimOf claimed of None \<Rightarrow> [] | Some cj \<Rightarrow> if hasChecker s2 then [RecordClaim (fst cj) tid] else [])"
    by blast
  define s3 where "s3 = (if 0 < queuedJobs team then s3' else s2)"
  have whole: "completeJob tid aj claimed s
      = (s3, if 0 < queuedJobs team then map_option (promotedJob tid) (claimOf claimed) else None)"
    using e(1) c(1) p(1) by (simp add: completeJob_def s3_def)
  have team3: "getTeam s3 tid
      = Some (team\<lparr>activeJobs := AList.delete (ajJobId aj) (activeJobs team),
                   completedJobs := completedJobs team + 1,
                   queuedJobs := (if 0 < queuedJobs team \<and> claimOf claimed \<noteq> None
                                  then queuedJobs team - 1 else queuedJobs team)\<rparr>)"
    using p(2) known2 by (simp add: s3_def)
  have calls3: "calls s3 = calls s2
      @ (if 0 < queuedJobs team \<and> hasChecker s
         then (case claimOf claimed of None \<Rightarrow> [] | Some cj \<Rightarrow> [RecordClaim (fst cj) tid])
         else [])"
    using p(5) c(4) e(5) by (simp add: s3_def split: option.splits)
  have others: "\<forall>t. t \<noteq> tid \<longrightarrow> getTeam s3 t = getTeam s t"
    using p(3) c(2) e(3) by (simp add: s3_def)
  have queue: "mainQueue s3 = mainQueue s"
    using p(4) c(3) e(4) by (simp add: s3_def)
  from e(1) e(2) e(6) c(1) c(5) whole team3 calls3 others queue c(2)
  show "\<exists>s1 s2 s3.
            completeJob_enter tid aj s = Some (s1, queueKey aj \<noteq> [])
          \<and> getTeam s1 tid = Some (team\<lparr>activeJobs := AList.delete (ajJobId aj) (activeJobs team),
                                         completedJobs := completedJobs team + 1\<rparr>)
          \<and> calls s1 = calls s
               @ (if fromFDB aj \<and> hasChecker s then [RecordComplete (ajJobId aj)] else [])
               @ (if queueKey aj \<noteq> [] then [ClientCompleteJob (queueKey aj)] else [])
          \<and> completeJob_check tid s1 = (s2, 0 < queuedJobs team)
          \<and> getTeam s2 tid = getTeam s1 tid
          \<and> calls s2 = calls s1 @ (if 0 < queuedJobs team then [ClientPopJob tid] else [])
          \<and> completeJob tid aj claimed s
               = (s3, if 0 < queuedJobs team then map_option (promotedJob tid) (claimOf claimed) else None)
          \<and> getTeam s3 tid
               = Some (team\<lparr>activeJobs := AList.delete (ajJobId aj) (activeJobs team),
                            completedJobs := completedJobs team + 1,
                            queuedJobs := (if 0 < queuedJobs team \<and> claimOf claimed \<noteq> None
                                           then queuedJobs team - 1 else queuedJobs team)\<rparr>)
          \<and> calls s3 = calls s2
               @ (if 0 < queuedJobs team \<and> hasChecker s
                  then (case claimOf claimed of None \<Rightarrow> [] | Some cj \<Rightarrow> [RecordClaim (fst cj) tid])
                  else [])
          \<and> (\<forall>t. t \<noteq> tid \<longrightarrow> getTeam s3 t = getTeam s t)
          \<and> mainQueue s3 = mainQueue s"
    by blast
qed

theorem C2_completeJob_effects_in_order_witness:
  "completeJob ''t'' jobFromFDB (Some claimB) simT
     = (simT\<lparr>teams := [(''t'', teamT\<lparr>activeJobs := [], completedJobs := 1, queuedJobs := 0\<rparr>)],
             calls := [RecordComplete ''a'', ClientCompleteJob ''qk'', ClientPopJob ''t'',
                       RecordClaim claimB ''t'']\<rparr>,
        Some jobB)
   \<and> completeJob ''u'' jobFromFDB (Some claimB) simT = (simT, None)"
proof -
  have k: "getTeam simT ''t'' = Some teamT" and u: "getTeam simT ''u'' = None"
    by (simp_all add: getTeam_def simT_def)
  from C2_completeJob_effects_in_order [of simT "''u''" jobFromFDB "Some claimB"] u
  have "completeJob ''u'' jobFromFDB (Some claimB) simT = (simT, None)" by blast
  moreover from C2_completeJob_effects_in_order [of simT "''t''" jobFromFDB "Some claimB"] k
  have "\<exists>s3. completeJob ''t'' jobFromFDB (Some claimB) simT
           = (s3, if 0 < queuedJobs teamT then map_option (promotedJob ''t'') (claimOf (Some claimB)) else None)"
    by blast
  moreover have "completeJob ''t'' jobFromFDB (Some claimB) simT
     = (simT\<lparr>teams := [(''t'', teamT\<lparr>activeJobs := [], completedJobs := 1, queuedJobs := 0\<rparr>)],
             calls := [RecordComplete ''a'', ClientCompleteJob ''qk'', ClientPopJob ''t'',
                       RecordClaim claimB ''t'']\<rparr>,
        Some jobB)"
    by (simp add: completeJob_def completeJob_enter_def completeJob_check_def completeJob_claimed_def
        claimOf_def promotedJob_def getTeam_def mutateTeam_def traced_def simT_def teamT_def
        jobFromFDB_def claimB_def jobB_def AList.delete_eq)
  ultimately show ?thesis by simp
qed


subsection \<open>startJob and the capacity of a team\<close>

lemma startJob_known:
  assumes "getTeam s (teamId jb) = Some team"
  shows "\<exists>s'. startJob jb now fdb s
            = Inr (\<lparr>ajJobId = jobId jb, queueKey = [], startTime = now, fromFDB = fdb\<rparr>, s')
    \<and> getTeam s' (teamId jb)
        = Some (team\<lparr>activeJobs :=
                  AList.update (jobId jb)
                    \<lparr>ajJobId = jobId jb, queueKey = [], startTime = now, fromFDB = fdb\<rparr>
                    (activeJobs team)\<rparr>)
    \<and> (\<forall>t. t \<noteq> teamId jb \<longrightarrow> getTeam s' t = getTeam s t)
    \<and> mainQueue s' = mainQueue s \<and> calls s' = calls s"
  using assms by (simp add: startJob_def Let_def sim_simps)




text \<open>
  What does keep a team within its limit: the dispatch loop calls \<^verbatim>\<open>startJob\<close> only
  after \<^verbatim>\<open>isTeamAtCapacity\<close> returned false, and the first piece of \<^verbatim>\<open>completeJob\<close> never
  adds an active job.
\<close>

lemma length_update_le: "length (AList.update k v al) \<le> Suc (length al)"
  by (induction al) auto

lemma startJob_after_capacity_check:
  assumes "\<not> isTeamAtCapacity s (teamId jb)"
    and "startJob jb now fdb s = Inr (a, s')"
    and "getTeam s' (teamId jb) = Some team'"
  shows "int (length (activeJobs team')) \<le> concurrencyLimit (tier team')"
proof -
  from assms(1) obtain team where known: "getTeam s (teamId jb) = Some team"
    and room: "int (length (activeJobs team)) < concurrencyLimit (tier team)"
    by (auto simp: isTeamAtCapacity_def split: option.splits)
  from startJob_known [OF known, of now fdb] assms(2) assms(3)
  have "team' = team\<lparr>activeJobs :=
                  AList.update (jobId jb)
                    \<lparr>ajJobId = jobId jb, queueKey = [], startTime = now, fromFDB = fdb\<rparr>
                    (activeJobs team)\<rparr>"
    by auto
  then show ?thesis
    using room length_update_le [of "jobId jb" "\<lparr>ajJobId = jobId jb, queueKey = [], startTime = now, fromFDB = fdb\<rparr>" "activeJobs team"]
    by simp
qed

lemma completeJob_enter_frees:
  assumes "getTeam s tid = Some team" and "completeJob_enter tid aj s = Some (s1, b)"
    and "getTeam s1 tid = Some team1"
  shows "length (activeJobs team1) \<le> length (activeJobs team) \<and> tier team1 = tier team"
  using completeJob_enter_known [OF assms(1), of aj] assms(2) assms(3)
  by (auto simp: AList.delete_eq intro: le_trans [OF length_filter_le])

text \<open>
  When a completion task of the main loop runs with nothing in between, for a job that
  is active, the team stays within its limit and \<^verbatim>\<open>queuedJobs\<close> stays non-negative: the
  removal frees the slot that the promoted job takes, and the decrement follows the test
  \<^verbatim>\<open>queuedJobs > 0\<close> at once. A push moves \<^verbatim>\<open>queuedJobs\<close> by one exactly when it
  returns true.
\<close>

lemma length_delete_present:
  "distinct (map fst al) \<Longrightarrow> k \<in> fst ` set al \<Longrightarrow> Suc (length (AList.delete k al)) = length al"
proof (induction al)
  case Nil
  then show ?case by simp
next
  case (Cons p al)
  show ?case
  proof (cases "fst p = k")
    case True
    with Cons.prems have "k \<notin> fst ` set al" by auto
    then have "AList.delete k al = al"
      by (induction al) auto
    with True show ?thesis by (cases p) (simp add: AList.delete_eq)
  next
    case False
    with Cons show ?thesis by (auto simp: AList.delete_eq)
  qed
qed

lemma completeJob_team:
  assumes "getTeam s tid = Some team" and "completeJob tid aj claimed s = (s', res)"
  shows "getTeam s' tid
       = Some (team\<lparr>activeJobs := AList.delete (ajJobId aj) (activeJobs team),
                    completedJobs := completedJobs team + 1,
                    queuedJobs := (if 0 < queuedJobs team \<and> claimOf claimed \<noteq> None
                                   then queuedJobs team - 1 else queuedJobs team)\<rparr>)
     \<and> res = (if 0 < queuedJobs team then map_option (promotedJob tid) (claimOf claimed) else None)"
proof -
  from completeJob_enter_known [OF assms(1), of aj] obtain s1 where
    e: "completeJob_enter tid aj s = Some (s1, queueKey aj \<noteq> [])"
       "getTeam s1 tid = Some (team\<lparr>activeJobs := AList.delete (ajJobId aj) (activeJobs team),
                                   completedJobs := completedJobs team + 1\<rparr>)"
    by blast
  from completeJob_check_known [OF e(2)] obtain s2 where
    c: "completeJob_check tid s1 = (s2, 0 < queuedJobs team)" "\<forall>t. getTeam s2 t = getTeam s1 t"
    by auto
  from c(2) e(2) have k2: "getTeam s2 tid = Some (team\<lparr>activeJobs := AList.delete (ajJobId aj) (activeJobs team),
                                   completedJobs := completedJobs team + 1\<rparr>)" by simp
  from completeJob_claimed_known [OF k2, of claimed] obtain s3 where
    p: "completeJob_claimed tid claimed s2 = (s3, map_option (promotedJob tid) (claimOf claimed))"
       "getTeam s3 tid = Some (team\<lparr>activeJobs := AList.delete (ajJobId aj) (activeJobs team),
                                   completedJobs := completedJobs team + 1,
                                   queuedJobs := (if claimOf claimed = None then queuedJobs team else queuedJobs team - 1)\<rparr>)"
    by auto
  show ?thesis
  proof (cases "0 < queuedJobs team")
    case True
    with e(1) c(1) p assms(2) show ?thesis by (auto simp: completeJob_def)
  next
    case False
    with e(1) c(1) k2 assms(2) show ?thesis by (auto simp: completeJob_def)
  qed
qed

lemma completionTask_keeps_limit:
  assumes known: "getTeam s tid = Some team"
    and active: "ajJobId aj \<in> fst ` set (activeJobs team)"
    and dist: "distinct (map fst (activeJobs team))"
    and within: "int (length (activeJobs team)) \<le> concurrencyLimit (tier team)"
    and task: "completionTask drain tid aj claimed now s = Inr s'"
    and after: "getTeam s' tid = Some team'"
  shows "int (length (activeJobs team')) \<le> concurrencyLimit (tier team')
       \<and> (0 \<le> queuedJobs team \<longrightarrow> 0 \<le> queuedJobs team')"
proof -
  let ?s0 = "traced (ClientRemoveActiveJob tid (ajJobId aj)) s"
  obtain s1 promoted where cj: "completeJob tid aj claimed ?s0 = (s1, promoted)"
    by (cases "completeJob tid aj claimed ?s0")
  have known0: "getTeam ?s0 tid = Some team" using known by (simp add: sim_simps)
  from completeJob_team [OF known0 cj]
  have t1: "getTeam s1 tid
       = Some (team\<lparr>activeJobs := AList.delete (ajJobId aj) (activeJobs team),
                    completedJobs := completedJobs team + 1,
                    queuedJobs := (if 0 < queuedJobs team \<and> claimOf claimed \<noteq> None
                                   then queuedJobs team - 1 else queuedJobs team)\<rparr>)"
    and res: "promoted = (if 0 < queuedJobs team then map_option (promotedJob tid) (claimOf claimed) else None)"
    by simp_all
  from length_delete_present [OF dist active] within
  have room: "int (length (AList.delete (ajJobId aj) (activeJobs team))) < concurrencyLimit (tier team)"
    by linarith
  show ?thesis
  proof (cases "drain \<or> promoted = None")
    case True
    with task cj have "s' = s1"
      by (auto simp: completionTask_def afterComplete_def split: if_splits)
    with t1 after room show ?thesis by auto
  next
    case False
    then obtain p where p: "promoted = Some p" and nd: "\<not> drain" by auto
    with res obtain cj where "p = promotedJob tid cj"
      by (cases "claimOf claimed") (auto split: if_splits)
    then have tp: "teamId p = tid" by (simp add: promotedJob_def)
    from startJob_known [of s1 p _ now True] t1 tp
    obtain s2 where st: "startJob p now True s1
            = Inr (\<lparr>ajJobId = jobId p, queueKey = [], startTime = now, fromFDB = True\<rparr>, s2)"
      and t2: "getTeam s2 tid
        = Some (team\<lparr>activeJobs :=
                  AList.update (jobId p)
                    \<lparr>ajJobId = jobId p, queueKey = [], startTime = now, fromFDB = True\<rparr>
                    (AList.delete (ajJobId aj) (activeJobs team)),
                    completedJobs := completedJobs team + 1,
                    queuedJobs := (if 0 < queuedJobs team \<and> claimOf claimed \<noteq> None
                                   then queuedJobs team - 1 else queuedJobs team)\<rparr>)"
      by auto
    from task cj p nd st have "s' = traced (ClientPushActiveJob (teamId p) (jobId p) 600000) s2"
      by (simp add: completionTask_def afterComplete_def)
    with t2 after have "team' = team\<lparr>activeJobs :=
                  AList.update (jobId p)
                    \<lparr>ajJobId = jobId p, queueKey = [], startTime = now, fromFDB = True\<rparr>
                    (AList.delete (ajJobId aj) (activeJobs team)),
                    completedJobs := completedJobs team + 1,
                    queuedJobs := (if 0 < queuedJobs team \<and> claimOf claimed \<noteq> None
                                   then queuedJobs team - 1 else queuedJobs team)\<rparr>"
      by (simp add: sim_simps)
    then show ?thesis
      using room length_update_le [of "jobId p"
          "\<lparr>ajJobId = jobId p, queueKey = [], startTime = now, fromFDB = True\<rparr>"
          "AList.delete (ajJobId aj) (activeJobs team)"]
      by auto
  qed
qed

lemma pushToConcurrencyQueue_counts:
  assumes "getTeam s (teamId jb) = Some team"
  shows "\<exists>s'. pushToConcurrencyQueue jb ok s = (s', ok)
     \<and> getTeam s' (teamId jb) = Some (team\<lparr>queuedJobs := queuedJobs team + (if ok then 1 else 0)\<rparr>)"
  using assms
  by (simp add: pushToConcurrencyQueue_def pushToConcurrencyQueue_call_def
      pushToConcurrencyQueue_resolved_def sim_simps)

subsection \<open>Runs of the scheduler\<close>

text \<open>
  C1 on the code. The run \<open>dispatchDuringPop\<close> of the main loop ends with two active
  jobs in a team whose limit is one: the completion task of job 1 removes it and waits for
  its pop; meanwhile a round of the main loop finds the team below its limit and starts
  job 4; then the pop returns job 2 and the task starts it without a capacity check.
  The result lists, for the only team, the active job ids, the limit, \<^verbatim>\<open>queuedJobs\<close> and
  \<^verbatim>\<open>completedJobs\<close>.
\<close>

theorem C1_limit_exceeded_by_promotion:
  "map_option teamView (run dispatchDuringPop (newWorld cfgSolo ''r''))
     = Some [([''stress-team-000000-r-job-4'', ''stress-team-000000-r-job-2''], 1, 1, 1)]"
  by code_simp

text \<open>
  C6 on the code. In the run \<open>completedTwice\<close> two completion tasks of the same team
  both read \<^verbatim>\<open>queuedJobs = 1\<close> before either pop has returned; both pops return a job and
  both tasks decrement: \<^verbatim>\<open>queuedJobs\<close> is \<open>-1\<close> (one push was acknowledged, two pops
  succeeded), \<^verbatim>\<open>completedJobs\<close> is 2 for one completed job and two jobs are active in a
  team with one slot.
\<close>

theorem C6_queuedJobs_negative:
  "map_option teamView (run completedTwice (newWorld cfgSolo ''r''))
     = Some [([''stress-team-000000-r-job-2'', ''stress-team-000000-r-job-3''], 1, - 1, 2)]"
  by code_simp

text \<open>
  C3 on the code. In the drain phase the completion task calls \<^verbatim>\<open>completeJob\<close> and
  drops its result. In the run \<open>drainWithQueued\<close> the pop claims job 2
  (\<^verbatim>\<open>RecordClaim\<close>, \<^verbatim>\<open>queuedJobs\<close> down from 2 to 1); when the task has ended the job is
  not active, no \<^verbatim>\<open>releaseJob\<close> was called, and the job is in neither queue nor in any
  task.
\<close>

theorem C3_drain_drops_claimed_job:
  "map_option (\<lambda>w. (teamView w, calls (sim w), mainQueue (sim w), overflowQueue w, runningTasks w, parkedTasks w))
      (run drainWithQueued (newWorld cfgSolo ''r''))
     = Some ([([], 1, 1, 1)],
             [ClientPushActiveJob ''stress-team-000000'' ''stress-team-000000-r-job-1'' 600000,
              ClientPushJob ''stress-team-000000'' ''stress-team-000000-r-job-2'' 51 600000 None,
              ClientPushJob ''stress-team-000000'' ''stress-team-000000-r-job-3'' 51 600000 None,
              ClientRemoveActiveJob ''stress-team-000000'' ''stress-team-000000-r-job-1'',
              ClientPopJob ''stress-team-000000'',
              RecordClaim (claimOfJob 2 1010) ''stress-team-000000''],
             [], [], [], [])"
  by code_simp

subsection \<open>Job ids\<close>







lemma dec_not_Nil: "dec n \<noteq> []"
  by (simp add: dec.simps [of n])










subsection \<open>generateJobs\<close>









subsection \<open>The client's request\<close>

text \<open>
  C8. Whatever the operation type, the method, the path and the outcome of \<^verbatim>\<open>fetch\<close>,
  \<^verbatim>\<open>request\<close> returns a result (the function is total: nothing is thrown) and adds
  exactly one record \<open>r\<close> of that operation type to the metrics. A response in the 2xx
  range whose body parses gives \<open>success = True\<close> and the parsed data; a response outside
  it whose body text can be read gives \<open>success = False\<close> with the status and the body
  text, and an error in the result; a rejected \<^verbatim>\<open>fetch\<close>, a body that cannot be read or
  a parse error gives \<open>success = False\<close> with no status and the error message in the
  result.
\<close>

theorem C8_request_records_once:
  "\<exists>r. metrics (fst (request m path opType body parseJson outcome clock c)) = metrics c @ [r]
     \<and> operationType r = opType
     \<and> (case outcome of
          FetchRejected msg \<Rightarrow>
            \<not> success r \<and> httpStatus r = None
            \<and> snd (request m path opType body parseJson outcome clock c)
                = \<lparr>resultData = None, resultSuccess = False, resultError = Some msg\<rparr>
        | Responded status statusText (BodyFailed msg) \<Rightarrow>
            \<not> success r \<and> httpStatus r = None
            \<and> snd (request m path opType body parseJson outcome clock c)
                = \<lparr>resultData = None, resultSuccess = False, resultError = Some msg\<rparr>
        | Responded status statusText (BodyText content) \<Rightarrow>
            if responseOk status then
              (case parseJson content of
                 Inr v \<Rightarrow>
                   success r \<and> httpStatus r = None
                   \<and> snd (request m path opType body parseJson outcome clock c)
                       = \<lparr>resultData = Some v, resultSuccess = True, resultError = None\<rparr>
               | Inl msg \<Rightarrow>
                   \<not> success r \<and> httpStatus r = None
                   \<and> snd (request m path opType body parseJson outcome clock c)
                       = \<lparr>resultData = None, resultSuccess = False, resultError = Some msg\<rparr>)
            else
              \<not> success r \<and> httpStatus r = Some status \<and> responseBody r = Some content
              \<and> resultData (snd (request m path opType body parseJson outcome clock c)) = None
              \<and> \<not> resultSuccess (snd (request m path opType body parseJson outcome clock c))
              \<and> resultError (snd (request m path opType body parseJson outcome clock c))
                  = Some (''HTTP '' @ show_int status @ '' '' @ statusText @ '': '' @ path
                          @ [CHR 0x0A] @ content))"
proof (cases outcome)
  case (FetchRejected msg)
  then show ?thesis by (simp add: request_def networkFailure_def Let_def)
next
  case (Responded status statusText rd)
  show ?thesis
  proof (cases rd)
    case (BodyFailed msg)
    with Responded show ?thesis by (simp add: request_def networkFailure_def Let_def)
  next
    case (BodyText content)
    show ?thesis
    proof (cases "responseOk status")
      case False
      with Responded BodyText show ?thesis by (simp add: request_def Let_def)
    next
      case True
      with Responded BodyText show ?thesis
        by (cases "parseJson content") (simp_all add: request_def networkFailure_def Let_def)
    qed
  qed
qed


subsection \<open>flushTeamQueue\<close>











end
